theory Spec2Isabelle
  imports Main "HOL-Library.Sublist"
begin

section \<open>dir-merge: the session commands of \<^verbatim>\<open>src/dir_merge/cli.py\<close>\<close>

text \<open>
  The program is a command line tool with three commands, \<^verbatim>\<open>merge\<close>, \<^verbatim>\<open>finish\<close> and
  \<^verbatim>\<open>status\<close>. Each is a sequence of effects on the file system, on the session file
  \<^verbatim>\<open>~/.config/dir-merge/session.json\<close> and on the process table, most of them through
  \<^verbatim>\<open>git\<close> and \<^verbatim>\<open>rsync\<close>. The embedding passes the state explicitly: a command takes the
  world before it and returns its outcome together with the world after it, so that the
  effects a failing command has already had are part of its result.

  The library calls and the two tools are modelled by what they do to the tree of files:
  there are no permissions and no symbolic links, a file operation fails only for the
  shape of the tree, and a tool fails only where its definition says so. A file has its
  content and its modification time, because rsync and git decide by them what they
  write. The session file is kept apart from the tree. The working directory of an
  invocation is part of its environment; the process can ask for it only while it is a
  directory of the tree.
\<close>

subsection \<open>Paths, nodes and the file system\<close>

text \<open>
  A path is the list of its components below the root; the code resolves every path to
  absolute form before it uses it, and the model has no symbolic links, so \<^verbatim>\<open>resolve()\<close>
  is the identity. A git repository's metadata directory is one opaque node that holds the
  repository's index, commits and configuration: it is copied, protected and removed as a
  whole, which is all the commands do with it. An index entry is a file, recorded with
  its content and with the modification time it had when it was staged, or the link that
  stands for a nested repository. A file node is its content and its modification time,
  in seconds.
\<close>

type_synonym path = "string list"

datatype entry = Blob string nat | Gitlink

record repo =
  index :: "(path \<times> entry) list"
  commits :: "(string \<times> (path \<times> entry) list) list"
  config :: "(string \<times> string) list"

datatype node = File string nat | Dir | GitMeta repo

text \<open>The file system lists its entries; the first entry for a path is the one in force.\<close>

type_synonym filesystem = "(path \<times> node) list"

definition lookup :: "filesystem \<Rightarrow> path \<Rightarrow> node option" where
  "lookup fs p = map_of fs p"

definition path_exists :: "filesystem \<Rightarrow> path \<Rightarrow> bool" where
  "path_exists fs p = (lookup fs p \<noteq> None)"

definition is_dir :: "filesystem \<Rightarrow> path \<Rightarrow> bool" where
  "is_dir fs p = (lookup fs p = Some Dir)"

definition file_at :: "filesystem \<Rightarrow> path \<Rightarrow> string option" where
  "file_at fs p = (case lookup fs p of Some (File c m) \<Rightarrow> Some c | _ \<Rightarrow> None)"

text \<open>\<^verbatim>\<open>x.relative_to(p)\<close>: the rest of \<open>x\<close> below \<open>p\<close>, if \<open>x\<close> is \<open>p\<close> or lies below it.\<close>

fun relative_to :: "path \<Rightarrow> path \<Rightarrow> path option" where
  "relative_to [] x = Some x"
| "relative_to (a # p) [] = None"
| "relative_to (a # p) (b # x) = (if a = b then relative_to p x else None)"

text \<open>
  \<^verbatim>\<open>--exclude=.git\<close>: an rsync pattern without a slash matches the name of a file or
  directory at any depth, and what lies below an excluded directory is never visited.
\<close>

definition excluded :: "path \<Rightarrow> bool" where
  "excluded q = (''.git'' \<in> set q)"

text \<open>The entries at and below \<open>p\<close>, with their paths relative to \<open>p\<close>.\<close>

fun subtree :: "filesystem \<Rightarrow> path \<Rightarrow> filesystem" where
  "subtree [] p = []"
| "subtree ((x, n) # fs) p =
     (case relative_to p x of
        Some q \<Rightarrow> (q, n) # subtree fs p
      | None \<Rightarrow> subtree fs p)"

text \<open>
  Every tool that rewrites a directory tree does so in one pattern: below \<open>base\<close> the
  entries of \<open>t\<close> are written, and of what was there before only the paths that \<open>keep\<close>
  accepts stay; nothing outside \<open>base\<close> changes.
\<close>

definition rewrite_tree ::
  "path \<Rightarrow> (path \<times> node) list \<Rightarrow> (path \<Rightarrow> bool) \<Rightarrow> filesystem \<Rightarrow> filesystem" where
  "rewrite_tree base t keep fs =
     map (\<lambda>(q, n). (base @ q, n)) t @
     filter (\<lambda>(x, n). case relative_to base x of None \<Rightarrow> True | Some q \<Rightarrow> keep q) fs"

subsection \<open>The world and the environment of one invocation\<close>

text \<open>
  The session record is the JSON object of \<^verbatim>\<open>session.json\<close>. Its five path entries are
  written together; \<^verbatim>\<open>shell_pid\<close> is added by the second save. The pid is stored as the
  decimal string of an integer and read back with \<^verbatim>\<open>int\<close>, which returns that integer.
\<close>

record session =
  temp_repo_path :: path
  original_cwd :: path
  output_dir :: path
  source_dir :: path
  target_dir :: path
  shell_pid :: "int option"

record world =
  files :: filesystem
  state_file :: "session option"
  processes :: "int list"

text \<open>
  What one invocation reads from its surroundings: the directory it is run in, the name
  \<^verbatim>\<open>tempfile.mkdtemp\<close> picks, the pid of the shell \<^verbatim>\<open>Popen\<close> starts (\<open>None\<close> when the shell
  cannot be started), whether git and rsync can be started at all, the text
  \<^verbatim>\<open>git status --short\<close> prints in a repository, and the time of the clock, which
  becomes the modification time of a file that git writes. Two more fields give git's
  ignore rules without fixing their pattern language: \<open>ignore_match text p d\<close> is the
  verdict of a \<^verbatim>\<open>.gitignore\<close> file with content \<open>text\<close> on the path \<open>p\<close> relative to the
  file's directory (\<open>d\<close> tells whether \<open>p\<close> is a directory): \<open>Some True\<close> when its last
  matching pattern ignores \<open>p\<close>, \<open>Some False\<close> when that pattern is negated, \<open>None\<close> when
  no pattern matches. \<open>ignored_elsewhere p\<close> is the verdict of the rules that are not in
  the working tree (the user's excludes file and \<^verbatim>\<open>info/exclude\<close>) on the path \<open>p\<close>
  relative to the repository.
\<close>

record env =
  cwd :: path
  mkdtemp_result :: path
  popen_pid :: "int option"
  git_ok :: bool
  rsync_ok :: bool
  git_status_stdout :: string
  now :: nat
  ignore_match :: "string \<Rightarrow> path \<Rightarrow> bool \<Rightarrow> bool option"
  ignored_elsewhere :: "path \<Rightarrow> bool"

record merge_args =
  source :: path
  target :: path
  output_opt :: "path option"

text \<open>
  Every error path of the code prints a message and ends in \<^verbatim>\<open>sys.exit(1)\<close>. The error
  value says which one: the two directory checks of \<^verbatim>\<open>merge\<close>, the missing session file,
  the location check and the existence check of \<^verbatim>\<open>finish\<close>,
  \<^verbatim>\<open>subprocess.CalledProcessError\<close> (a tool ran and exited non-zero), and any other
  exception (\<open>IOError\<close>: a failing file operation, a tool or shell that cannot be started,
  a signal to a process that is not there). \<open>FileNotFoundError\<close> is the exception of
  \<^verbatim>\<open>Path.cwd()\<close>, which both commands call outside their \<^verbatim>\<open>try\<close> block: nothing catches
  it, and the interpreter ends with a traceback and status 1.
  \<open>SessionAlreadyActiveError\<close> is the error the specification names for a second
  \<^verbatim>\<open>merge\<close>; no command of the code produces it.
\<close>

datatype error =
    ValidationError path
  | NoActiveSessionError
  | SessionAlreadyActiveError
  | WrongLocationError path path
  | StagingMissingError path
  | ExternalToolError
  | IOError
  | FileNotFoundError

definition exit_code :: "error + 'a \<Rightarrow> int" where
  "exit_code r = (case r of Inl e \<Rightarrow> 1 | Inr v \<Rightarrow> 0)"

text \<open>
  A \<^verbatim>\<open>try\<close> block is a list of steps run in order. The first step that fails ends the
  block with its error; the world keeps the effects of the steps before it.
\<close>

type_synonym step = "world \<Rightarrow> error + world"

fun try_steps :: "step list \<Rightarrow> world \<Rightarrow> (error + unit) \<times> world" where
  "try_steps [] w = (Inr (), w)"
| "try_steps (s # ss) w =
     (case s w of
        Inl e \<Rightarrow> (Inl e, w)
      | Inr w' \<Rightarrow> try_steps ss w')"

subsection \<open>The session file\<close>

definition load_session_state :: "world \<Rightarrow> error + session" where
  "load_session_state w =
     (case state_file w of
        Some state \<Rightarrow> Inr state
      | None \<Rightarrow> Inl NoActiveSessionError)"

definition save_session_state :: "session \<Rightarrow> world \<Rightarrow> world" where
  "save_session_state state w = w\<lparr>state_file := Some state\<rparr>"

definition clear_session_state :: "world \<Rightarrow> world" where
  "clear_session_state w = w\<lparr>state_file := None\<rparr>"

subsection \<open>Library calls on the file system and the process table\<close>

text \<open>
  \<^verbatim>\<open>Path.cwd()\<close> is \<^verbatim>\<open>os.getcwd()\<close>: it raises \<^verbatim>\<open>FileNotFoundError\<close> when the directory
  the process is in has been removed.
\<close>

definition path_cwd :: "env \<Rightarrow> world \<Rightarrow> error + path" where
  "path_cwd e w = (if is_dir (files w) (cwd e) then Inr (cwd e) else Inl FileNotFoundError)"

text \<open>
  \<^verbatim>\<open>tempfile.mkdtemp\<close> creates a directory that did not exist before: nothing is at its
  name or below it.
\<close>

definition mkdtemp :: "env \<Rightarrow> step" where
  "mkdtemp e w =
     (if subtree (files w) (mkdtemp_result e) \<noteq> [] then Inl IOError
      else Inr (w\<lparr>files := (mkdtemp_result e, Dir) # files w\<rparr>))"

text \<open>
  \<^verbatim>\<open>shutil.copytree(src, dst, dirs_exist_ok=True)\<close> copies everything at and below
  \<open>src\<close> to the same place below \<open>dst\<close> and removes nothing from \<open>dst\<close>. It copies with
  \<^verbatim>\<open>copy2\<close>, so a copy has the modification time of its original.
\<close>

definition copytree :: "path \<Rightarrow> path \<Rightarrow> step" where
  "copytree src dst w =
     (if \<not> is_dir (files w) src then Inl IOError
      else Inr (w\<lparr>files := rewrite_tree dst (subtree (files w) src) (\<lambda>q. True) (files w)\<rparr>))"

text \<open>
  \<^verbatim>\<open>Path.mkdir(parents=True, exist_ok=True)\<close> raises when the path or one of its
  ancestors exists and is not a directory; otherwise they all are directories afterwards.
\<close>

definition mkdir_parents :: "path \<Rightarrow> step" where
  "mkdir_parents p w =
     (if list_ex (\<lambda>d. path_exists (files w) d \<and> \<not> is_dir (files w) d) (prefixes p)
      then Inl IOError
      else Inr (w\<lparr>files := map (\<lambda>d. (d, Dir)) (prefixes p) @ files w\<rparr>))"

text \<open>
  \<^verbatim>\<open>shutil.rmtree(p)\<close>, called without \<^verbatim>\<open>ignore_errors\<close>: it raises when \<open>p\<close> does not
  exist or is not a directory, and otherwise removes \<open>p\<close> and everything below it.
\<close>

definition rmtree :: "path \<Rightarrow> step" where
  "rmtree p w =
     (if \<not> is_dir (files w) p then Inl IOError
      else Inr (w\<lparr>files := rewrite_tree p [] (\<lambda>q. False) (files w)\<rparr>))"

text \<open>\<^verbatim>\<open>subprocess.Popen(shell, cwd=dir)\<close>: the new shell joins the process table.\<close>

definition popen_shell :: "env \<Rightarrow> path \<Rightarrow> step" where
  "popen_shell e dir w =
     (case popen_pid e of
        None \<Rightarrow> Inl IOError
      | Some pid \<Rightarrow>
          if \<not> is_dir (files w) dir then Inl IOError
          else Inr (w\<lparr>processes := pid # processes w\<rparr>))"

text \<open>\<^verbatim>\<open>os.kill(pid, 9)\<close> raises \<^verbatim>\<open>ProcessLookupError\<close> when no such process runs.\<close>

definition os_kill :: "int \<Rightarrow> step" where
  "os_kill pid w =
     (if pid \<in> set (processes w) then Inr (w\<lparr>processes := removeAll pid (processes w)\<rparr>)
      else Inl IOError)"

subsection \<open>rsync\<close>

text \<open>
  \<^verbatim>\<open>rsync -av --delete --exclude=.git src/ dst/\<close> brings the contents of \<open>dst\<close> to
  those of \<open>src\<close>, path by path:

    \<^item> an excluded path (one with a component \<^verbatim>\<open>.git\<close>) is neither sent nor deleted;

    \<^item> without \<^verbatim>\<open>--checksum\<close> a file is not sent when the receiving side already has a
      file of the same size and the same modification time (the quick check): the
      receiver's file then stays as it is, whatever its content;

    \<^item> every other file or directory of \<open>src\<close> is written with its modification time
      (\<^verbatim>\<open>-a\<close> implies \<^verbatim>\<open>-t\<close>);

    \<^item> a path that \<open>src\<close> does not have is deleted from \<open>dst\<close>, except that a directory
      which still holds an excluded entry somewhere below cannot be deleted and stays
      (rsync reports it and still exits with status 0).

  rsync exits non-zero when \<open>src\<close> is not a directory, and when a file of \<open>src\<close> is to
  take the place of a directory that holds an excluded entry (it cannot make way for the
  file). What a failing run has already written is not modelled. The definition reads the
  sending side before it writes; where one tree lies inside the other, rsync's own order
  of reading and writing decides what the receiving side holds, and no theorem below says
  what it holds there.
\<close>

fun quick_equal :: "node option \<Rightarrow> node option \<Rightarrow> bool" where
  "quick_equal (Some (File c m)) (Some (File c' m')) = (length c = length c' \<and> m = m')"
| "quick_equal a b = False"

definition holds_protected :: "filesystem \<Rightarrow> path \<Rightarrow> bool" where
  "holds_protected fs p =
     list_ex (\<lambda>x. case relative_to p x of Some r \<Rightarrow> r \<noteq> [] \<and> excluded r | None \<Rightarrow> False)
       (map fst fs)"

definition in_the_way :: "filesystem \<Rightarrow> path \<Rightarrow> path \<Rightarrow> path \<Rightarrow> bool" where
  "in_the_way fs src dst q =
     (\<not> excluded q \<and> file_at fs (src @ q) \<noteq> None \<and>
      is_dir fs (dst @ q) \<and> holds_protected fs (dst @ q))"

definition skipped :: "filesystem \<Rightarrow> path \<Rightarrow> path \<Rightarrow> path \<Rightarrow> bool" where
  "skipped fs src dst q = quick_equal (lookup fs (src @ q)) (lookup fs (dst @ q))"

definition stays :: "filesystem \<Rightarrow> path \<Rightarrow> path \<Rightarrow> path \<Rightarrow> bool" where
  "stays fs src dst q =
     (excluded q \<or> skipped fs src dst q \<or>
      (lookup fs (src @ q) = None \<and> is_dir fs (dst @ q) \<and> holds_protected fs (dst @ q)))"

definition rsync :: "env \<Rightarrow> path \<Rightarrow> path \<Rightarrow> step" where
  "rsync e src dst w =
     (if \<not> rsync_ok e then Inl IOError
      else if \<not> is_dir (files w) src then Inl ExternalToolError
      else if list_ex (in_the_way (files w) src dst) (map fst (subtree (files w) src))
      then Inl ExternalToolError
      else Inr (w\<lparr>files :=
        rewrite_tree dst
          (filter (\<lambda>(q, n). \<not> excluded q \<and> \<not> skipped (files w) src dst q)
             (subtree (files w) src))
          (stays (files w) src dst)
          (files w)\<rparr>))"

subsection \<open>git\<close>

text \<open>
  Every git call of \<^verbatim>\<open>merge\<close> and \<^verbatim>\<open>finish\<close> is
  \<^verbatim>\<open>subprocess.run([...], cwd=dir, check=True)\<close>: it raises when \<open>dir\<close> is not a directory
  or git cannot be started, and \<^verbatim>\<open>CalledProcessError\<close> when git exits non-zero, as
  every command but \<^verbatim>\<open>init\<close> does where there is no repository.
\<close>

definition git_dir :: "path \<Rightarrow> path" where
  "git_dir dir = dir @ [''.git'']"

definition run_git :: "env \<Rightarrow> path \<Rightarrow> step \<Rightarrow> step" where
  "run_git e dir body w =
     (if \<not> is_dir (files w) dir then Inl IOError
      else if \<not> git_ok e then Inl IOError
      else body w)"

definition with_repo :: "path \<Rightarrow> (repo \<Rightarrow> error + world) \<Rightarrow> world \<Rightarrow> error + world" where
  "with_repo dir body w =
     (case lookup (files w) (git_dir dir) of
        Some (GitMeta r) \<Rightarrow> body r
      | _ \<Rightarrow> Inl ExternalToolError)"

definition put_repo :: "path \<Rightarrow> repo \<Rightarrow> world \<Rightarrow> world" where
  "put_repo dir r w = w\<lparr>files := (git_dir dir, GitMeta r) # files w\<rparr>"

definition empty_repo :: repo where
  "empty_repo = \<lparr>index = [], commits = [], config = []\<rparr>"

text \<open>\<^verbatim>\<open>git init\<close>: creates the metadata, or leaves an existing repository as it is.\<close>

definition git_init :: "env \<Rightarrow> path \<Rightarrow> step" where
  "git_init e dir = run_git e dir (\<lambda>w.
     case lookup (files w) (git_dir dir) of
       Some (GitMeta r) \<Rightarrow> Inr w
     | Some (File c m) \<Rightarrow> Inl ExternalToolError
     | _ \<Rightarrow> Inr (put_repo dir empty_repo w))"

definition git_config :: "env \<Rightarrow> string \<Rightarrow> string \<Rightarrow> path \<Rightarrow> step" where
  "git_config e k v dir = run_git e dir (\<lambda>w.
     with_repo dir (\<lambda>r. Inr (put_repo dir (r\<lparr>config := (k, v) # config r\<rparr>) w)) w)"

text \<open>
  What git leaves alone in a working tree \<open>t\<close> (the tree below the repository's
  directory, by relative paths).

  A directory other than the top one that has a \<^verbatim>\<open>.git\<close> entry of its own is a nested
  repository: git does not look into it.

  A path is ignored when the rules ignore it or one of the directories that lead to it.
  For one path the \<^verbatim>\<open>.gitignore\<close> files of the directories above it are asked from the
  nearest to the top one, the first that has a verdict decides, and the rules from
  outside the tree decide when none has.
\<close>

definition is_repo :: "filesystem \<Rightarrow> path \<Rightarrow> bool" where
  "is_repo t d = (case lookup t (d @ [''.git'']) of Some (GitMeta r) \<Rightarrow> True | _ \<Rightarrow> False)"

definition in_nested :: "filesystem \<Rightarrow> path \<Rightarrow> bool" where
  "in_nested t q = list_ex (\<lambda>d. d \<noteq> [] \<and> is_repo t d) (prefixes q)"

definition verdicts :: "env \<Rightarrow> filesystem \<Rightarrow> path \<Rightarrow> bool list" where
  "verdicts e t p =
     List.map_filter
       (\<lambda>d. case lookup t (d @ [''.gitignore'']) of
               Some (File text m) \<Rightarrow> ignore_match e text (drop (length d) p) (is_dir t p)
             | _ \<Rightarrow> None)
       (rev (butlast (prefixes p)))"

definition path_ignored :: "env \<Rightarrow> filesystem \<Rightarrow> path \<Rightarrow> bool" where
  "path_ignored e t p = (case verdicts e t p of v # vs \<Rightarrow> v | [] \<Rightarrow> ignored_elsewhere e p)"

definition ignored :: "env \<Rightarrow> filesystem \<Rightarrow> path \<Rightarrow> bool" where
  "ignored e t q = list_ex (\<lambda>p. p \<noteq> [] \<and> path_ignored e t p) (prefixes q)"

text \<open>
  \<^verbatim>\<open>git add .\<close> makes the index the files of the working tree, with three exceptions:
  nothing at or below a \<^verbatim>\<open>.git\<close> entry is ever staged; an ignored file is staged only
  if the index already has it; and a nested repository is recorded as one link, none of
  its files being staged. git exits non-zero when a nested repository it has to record
  has no commit. The entry is looked up for every listed path, so that an entry of the
  list that is overridden by an earlier one does not count.
\<close>

fun staged_files ::
  "env \<Rightarrow> (path \<times> entry) list \<Rightarrow> filesystem \<Rightarrow> path list \<Rightarrow> (path \<times> entry) list" where
  "staged_files e old t [] = []"
| "staged_files e old t (q # qs) =
     (case lookup t q of
        Some (File c m) \<Rightarrow>
          if excluded q \<or> in_nested t q \<or> (ignored e t q \<and> map_of old q = None)
          then staged_files e old t qs
          else (q, Blob c m) # staged_files e old t qs
      | _ \<Rightarrow> staged_files e old t qs)"

definition nested_root :: "env \<Rightarrow> (path \<times> entry) list \<Rightarrow> filesystem \<Rightarrow> path \<Rightarrow> bool" where
  "nested_root e old t d =
     (d \<noteq> [] \<and> \<not> excluded d \<and> is_repo t d \<and>
      \<not> list_ex (\<lambda>a. a \<noteq> [] \<and> is_repo t a) (butlast (prefixes d)) \<and>
      (\<not> ignored e t d \<or> map_of old d \<noteq> None))"

definition nested_roots :: "env \<Rightarrow> (path \<times> entry) list \<Rightarrow> filesystem \<Rightarrow> path list" where
  "nested_roots e old t =
     filter (nested_root e old t)
       (map butlast (filter (\<lambda>x. x \<noteq> [] \<and> last x = ''.git'') (map fst t)))"

definition has_commit :: "filesystem \<Rightarrow> path \<Rightarrow> bool" where
  "has_commit t d =
     (case lookup t (d @ [''.git'']) of Some (GitMeta r) \<Rightarrow> commits r \<noteq> [] | _ \<Rightarrow> False)"

definition stage :: "env \<Rightarrow> (path \<times> entry) list \<Rightarrow> filesystem \<Rightarrow> (path \<times> entry) list" where
  "stage e old t =
     staged_files e old t (map fst t) @ map (\<lambda>d. (d, Gitlink)) (nested_roots e old t)"

definition git_add_all :: "env \<Rightarrow> path \<Rightarrow> step" where
  "git_add_all e dir = run_git e dir (\<lambda>w.
     with_repo dir (\<lambda>r.
       let t = subtree (files w) dir
       in if list_ex (\<lambda>d. \<not> has_commit t d) (nested_roots e (index r) t)
          then Inl ExternalToolError
          else Inr (put_repo dir (r\<lparr>index := stage e (index r) t\<rparr>) w)) w)"

text \<open>
  Two lists of entries record the same files when every path has the same content in
  both; the modification time an entry remembers is not part of what is committed.
\<close>

definition content_of :: "entry \<Rightarrow> string option" where
  "content_of en = (case en of Blob c m \<Rightarrow> Some c | Gitlink \<Rightarrow> None)"

definition same_files :: "(path \<times> entry) list \<Rightarrow> (path \<times> entry) list \<Rightarrow> bool" where
  "same_files a b =
     list_all (\<lambda>q. map_option content_of (map_of a q) = map_option content_of (map_of b q))
       (map fst a @ map fst b)"

definition head_files :: "repo \<Rightarrow> (path \<times> entry) list" where
  "head_files r = (case commits r of [] \<Rightarrow> [] | c # cs \<Rightarrow> snd c)"

text \<open>
  \<^verbatim>\<open>git commit -m msg\<close> records the index as a new commit; it exits non-zero when the
  index holds nothing that the last commit does not (there is nothing to commit).
\<close>

definition git_commit :: "env \<Rightarrow> string \<Rightarrow> path \<Rightarrow> step" where
  "git_commit e msg dir = run_git e dir (\<lambda>w.
     with_repo dir (\<lambda>r.
       if same_files (index r) (head_files r) then Inl ExternalToolError
       else Inr (put_repo dir (r\<lparr>commits := (msg, index r) # commits r\<rparr>) w)) w)"

text \<open>
  \<^verbatim>\<open>git checkout -- .\<close> restores the working tree's files from the index and touches
  nothing that the index does not have. git compares the stat data it recorded when a
  file was staged with the file's present ones, which change whenever the file is
  written: a file that is as it was staged is left alone with its modification time, and
  any other is written again with the content of the index and the time of the clock,
  over whatever is in its place. The directories that lead to an entry exist afterwards.
  git exits non-zero when the index is empty (the pathspec matches no file known to git).
\<close>

definition checkout_tree :: "nat \<Rightarrow> filesystem \<Rightarrow> (path \<times> entry) list \<Rightarrow> filesystem" where
  "checkout_tree clock t idx =
     concat (map (\<lambda>q. case map_of idx q of
                        Some (Blob c m) \<Rightarrow>
                          if lookup t q = Some (File c m) then [] else [(q, File c clock)]
                      | Some Gitlink \<Rightarrow> [(q, Dir)]
                      | None \<Rightarrow> [])
               (map fst idx)) @
     concat (map (\<lambda>q. map (\<lambda>d. (d, Dir)) (butlast (prefixes q))) (map fst idx))"

definition tracked :: "(path \<times> entry) list \<Rightarrow> path \<Rightarrow> bool" where
  "tracked idx q = list_ex (\<lambda>t. prefix q t) (map fst idx)"

definition below_tracked :: "(path \<times> entry) list \<Rightarrow> path \<Rightarrow> bool" where
  "below_tracked idx q = list_ex (\<lambda>t. strict_prefix t q \<and> map_of idx t \<noteq> Some Gitlink) (map fst idx)"

definition git_checkout_all :: "env \<Rightarrow> path \<Rightarrow> step" where
  "git_checkout_all e dir = run_git e dir (\<lambda>w.
     with_repo dir (\<lambda>r.
       if index r = [] then Inl ExternalToolError
       else Inr (w\<lparr>files :=
         rewrite_tree dir (checkout_tree (now e) (subtree (files w) dir) (index r))
           (\<lambda>q. \<not> below_tracked (index r) q)
           (files w)\<rparr>)) w)"

text \<open>
  \<^verbatim>\<open>git clean -fd\<close> removes untracked files and directories, but not all of them:
  without \<^verbatim>\<open>-x\<close> it leaves every ignored path, with a single \<^verbatim>\<open>-f\<close> it leaves every
  nested repository, and it never touches a \<^verbatim>\<open>.git\<close> entry. A path survives when it is
  at or below a \<^verbatim>\<open>.git\<close> entry, leads to or is an entry of the index, lies in a nested
  repository or is ignored; a directory stays as long as something below it survives.
\<close>

definition survives :: "env \<Rightarrow> (path \<times> entry) list \<Rightarrow> filesystem \<Rightarrow> path \<Rightarrow> bool" where
  "survives e idx t q = (excluded q \<or> tracked idx q \<or> in_nested t q \<or> ignored e t q)"

definition clean_keeps :: "env \<Rightarrow> (path \<times> entry) list \<Rightarrow> filesystem \<Rightarrow> path \<Rightarrow> bool" where
  "clean_keeps e idx t q =
     (q = [] \<or> survives e idx t q \<or>
      list_ex (\<lambda>x. strict_prefix q x \<and> survives e idx t x) (map fst t))"

definition git_clean :: "env \<Rightarrow> path \<Rightarrow> step" where
  "git_clean e dir = run_git e dir (\<lambda>w.
     with_repo dir (\<lambda>r.
       Inr (w\<lparr>files :=
         rewrite_tree dir [] (clean_keeps e (index r) (subtree (files w) dir)) (files w)\<rparr>)) w)"

text \<open>
  \<^verbatim>\<open>git status --short\<close>, run without \<^verbatim>\<open>check=True\<close>: \<^verbatim>\<open>subprocess.run\<close> raises when
  the directory cannot be used or git cannot be started (\<open>None\<close>), and otherwise returns
  git's exit status and what it printed on standard output. Where there is no repository
  git exits with status 128 and prints nothing there. It reads the repository and changes
  nothing.
\<close>

definition git_status_short :: "env \<Rightarrow> path \<Rightarrow> world \<Rightarrow> (int \<times> string) option" where
  "git_status_short e dir w =
     (if \<not> is_dir (files w) dir \<or> \<not> git_ok e then None
      else case lookup (files w) (git_dir dir) of
             Some (GitMeta r) \<Rightarrow> Some (0, git_status_stdout e)
           | _ \<Rightarrow> Some (128, []))"

subsection \<open>The commands\<close>

text \<open>
  \<^verbatim>\<open>merge_command\<close> (lines 38 to 158). The two directory checks come first, outside the
  \<^verbatim>\<open>try\<close> block; nothing reads the session file. The paths are resolved, the output
  directory defaulting to the source (\<open>new_session\<close> is the record of lines 126 to 132),
  and \<^verbatim>\<open>Path.cwd()\<close> of line 57 gives the directory the record remembers.
  The block (\<open>merge_steps\<close>) then runs \<^verbatim>\<open>mkdtemp\<close>, \<^verbatim>\<open>copytree\<close>, the five git calls, the
  overlay, the first save, \<^verbatim>\<open>Popen\<close> and the second save. The function gives the world in
  which the interactive window opens: the \<^verbatim>\<open>wait()\<close> that follows has no effect of its
  own, and the command returns when the shell has ended.
\<close>

definition new_session :: "env \<Rightarrow> merge_args \<Rightarrow> session" where
  "new_session e args =
     \<lparr>temp_repo_path = mkdtemp_result e,
      original_cwd = cwd e,
      output_dir = (case output_opt args of Some p \<Rightarrow> p | None \<Rightarrow> source args),
      source_dir = source args,
      target_dir = target args,
      shell_pid = None\<rparr>"

definition merge_steps :: "env \<Rightarrow> merge_args \<Rightarrow> step list" where
  "merge_steps e args =
     (let temp_dir = mkdtemp_result e;
          state = new_session e args
      in [mkdtemp e,
          copytree (source args) temp_dir,
          git_init e temp_dir,
          git_config e ''user.email'' ''dir-merge@local'' temp_dir,
          git_config e ''user.name'' ''dir-merge'' temp_dir,
          git_add_all e temp_dir,
          git_commit e ''BASE'' temp_dir,
          rsync e (target args) temp_dir,
          (\<lambda>w. Inr (save_session_state state w)),
          popen_shell e temp_dir,
          (\<lambda>w. Inr (save_session_state (state\<lparr>shell_pid := popen_pid e\<rparr>) w))])"

definition merge_command :: "env \<Rightarrow> merge_args \<Rightarrow> world \<Rightarrow> (error + unit) \<times> world" where
  "merge_command e args w =
     (if \<not> is_dir (files w) (source args) then (Inl (ValidationError (source args)), w)
      else if \<not> is_dir (files w) (target args) then (Inl (ValidationError (target args)), w)
      else case path_cwd e w of
             Inl err \<Rightarrow> (Inl err, w)
           | Inr original \<Rightarrow> try_steps (merge_steps e args) w)"

text \<open>
  \<^verbatim>\<open>finish_command\<close> (lines 161 to 250). After the session record is loaded, line 167
  asks for the working directory with \<^verbatim>\<open>Path.cwd()\<close>, before the location check and the
  existence check and outside the \<^verbatim>\<open>try\<close> block. The block has two parts: the steps that
  bring the staged state to the output directory (lines 191 to 223), and the teardown
  (lines 225 to 243).
\<close>

definition publish_steps :: "env \<Rightarrow> session \<Rightarrow> step list" where
  "publish_steps e state =
     [mkdir_parents (output_dir state),
      git_checkout_all e (temp_repo_path state),
      git_clean e (temp_repo_path state),
      rsync e (temp_repo_path state) (output_dir state)]"

definition kill_shell :: "session \<Rightarrow> step" where
  "kill_shell state w =
     (let pid = (case shell_pid state of Some n \<Rightarrow> n | None \<Rightarrow> - 1)
      in if pid > 0 then os_kill pid w else Inr w)"

definition teardown_steps :: "session \<Rightarrow> step list" where
  "teardown_steps state =
     [rmtree (temp_repo_path state),
      (\<lambda>w. Inr (clear_session_state w)),
      kill_shell state]"

definition finish_command :: "env \<Rightarrow> world \<Rightarrow> (error + unit) \<times> world" where
  "finish_command e w =
     (case load_session_state w of
        Inl err \<Rightarrow> (Inl err, w)
      | Inr state \<Rightarrow>
          (case path_cwd e w of
             Inl err \<Rightarrow> (Inl err, w)
           | Inr current_cwd \<Rightarrow>
               let temp_repo = temp_repo_path state
               in if current_cwd \<noteq> temp_repo
                  then (Inl (WrongLocationError temp_repo current_cwd), w)
                  else if \<not> path_exists (files w) temp_repo
                  then (Inl (StagingMissingError temp_repo), clear_session_state w)
                  else try_steps (publish_steps e state @ teardown_steps state) w))"

text \<open>
  \<^verbatim>\<open>status_command\<close> (lines 253 to 285) returns the lines it prints. A path prints as
  its components, each after a slash. The live query is inside \<^verbatim>\<open>try\<close> with
  \<^verbatim>\<open>except Exception: pass\<close>; its exit status is never looked at.
\<close>

definition render :: "path \<Rightarrow> string" where
  "render p = (if p = [] then ''/'' else concat (map (\<lambda>c. ''/'' @ c) p))"

definition path_name :: "path \<Rightarrow> string" where
  "path_name p = (if p = [] then [] else last p)"

definition session_lines :: "session \<Rightarrow> string list" where
  "session_lines state =
     [''Active merge session:'',
      [],
      ''  Session ID (temp repo):  '' @ path_name (temp_repo_path state),
      ''  Temp repo path:          '' @ render (temp_repo_path state),
      ''  Original directory:      '' @ render (original_cwd state),
      ''  Output directory:        '' @ render (output_dir state),
      ''  Source directory:        '' @ render (source_dir state),
      ''  Target directory:        '' @ render (target_dir state),
      []]"

definition live_status_lines :: "env \<Rightarrow> path \<Rightarrow> world \<Rightarrow> string list" where
  "live_status_lines e temp_repo w =
     (if path_exists (files w) temp_repo
      then [''Git status in temp repo:'', []] @
           (case git_status_short e temp_repo w of
              Some result \<Rightarrow>
                if snd result \<noteq> [] then [snd result] else [''  (no changes)'']
            | None \<Rightarrow> []) @
           [[]]
      else [])"

definition status_command :: "env \<Rightarrow> world \<Rightarrow> (error + string list) \<times> world" where
  "status_command e w =
     (case load_session_state w of
        Inl err \<Rightarrow> (Inl err, w)
      | Inr state \<Rightarrow>
          (Inr (session_lines state @ live_status_lines e (temp_repo_path state) w), w))"

text \<open>Two directories are separate when neither is the other or lies inside it.\<close>

definition separate :: "path \<Rightarrow> path \<Rightarrow> bool" where
  "separate p q = (\<not> prefix p q \<and> \<not> prefix q p)"

subsection \<open>A small session\<close>

text \<open>
  The scenario of the specification: the source holds \<^verbatim>\<open>a.txt\<close> with content 1, the target
  holds \<^verbatim>\<open>a.txt\<close> with content 2 and \<^verbatim>\<open>b.txt\<close> with content x, and the output directory
  is the source. The source's file was last written at time 100, the target's files at
  time 200, and the commands run at time 300. \<open>active_world\<close> is the world after \<^verbatim>\<open>merge\<close> has run there;
  \<open>orphan_world\<close> is the same session after its staging directory has been removed.
\<close>

definition demo_world :: world where
  "demo_world =
     \<lparr>files =
        [([], Dir), ([''tmp''], Dir), ([''home''], Dir),
         ([''src''], Dir), ([''src'', ''a.txt''], File ''1'' 100),
         ([''tgt''], Dir), ([''tgt'', ''a.txt''], File ''2'' 200), ([''tgt'', ''b.txt''], File ''x'' 200)],
      state_file = None,
      processes = []\<rparr>"

text \<open>
  The one ignore rule of the examples: the pattern \<^verbatim>\<open>*.log\<close> ignores every path whose
  last component ends in \<^verbatim>\<open>.log\<close>.
\<close>

definition log_pattern :: "string \<Rightarrow> path \<Rightarrow> bool \<Rightarrow> bool option" where
  "log_pattern text p d =
     (if text = ''*.log'' \<and> p \<noteq> [] \<and> suffix ''.log'' (last p) then Some True else None)"

definition demo_env :: env where
  "demo_env =
     \<lparr>cwd = [''home''], mkdtemp_result = [''tmp'', ''dir-merge-1''], popen_pid = Some 4711,
      git_ok = True, rsync_ok = True, git_status_stdout = [], now = 300,
      ignore_match = log_pattern, ignored_elsewhere = (\<lambda>p. False)\<rparr>"

definition demo_args :: merge_args where
  "demo_args = \<lparr>source = [''src''], target = [''tgt''], output_opt = None\<rparr>"

definition demo_session :: session where
  "demo_session =
     \<lparr>temp_repo_path = [''tmp'', ''dir-merge-1''], original_cwd = [''home''],
      output_dir = [''src''], source_dir = [''src''], target_dir = [''tgt''],
      shell_pid = Some 4711\<rparr>"

definition demo_repo :: repo where
  "demo_repo =
     \<lparr>index = [([''a.txt''], Blob ''1'' 100)],
      commits = [(''BASE'', [([''a.txt''], Blob ''1'' 100)])],
      config = [(''user.name'', ''dir-merge''), (''user.email'', ''dir-merge@local'')]\<rparr>"

definition active_world :: world where
  "active_world =
     \<lparr>files =
        [([''tmp'', ''dir-merge-1''], Dir),
         ([''tmp'', ''dir-merge-1'', ''a.txt''], File ''2'' 200),
         ([''tmp'', ''dir-merge-1'', ''b.txt''], File ''x'' 200),
         ([''tmp'', ''dir-merge-1'', ''.git''], GitMeta demo_repo),
         ([], Dir), ([''tmp''], Dir), ([''home''], Dir),
         ([''src''], Dir), ([''src'', ''a.txt''], File ''1'' 100),
         ([''tgt''], Dir), ([''tgt'', ''a.txt''], File ''2'' 200), ([''tgt'', ''b.txt''], File ''x'' 200)],
      state_file = Some demo_session,
      processes = [4711]\<rparr>"

definition orphan_world :: world where
  "orphan_world =
     \<lparr>files =
        [([], Dir), ([''tmp''], Dir), ([''home''], Dir),
         ([''src''], Dir), ([''src'', ''a.txt''], File ''1'' 100),
         ([''tgt''], Dir), ([''tgt'', ''a.txt''], File ''2'' 200), ([''tgt'', ''b.txt''], File ''x'' 200)],
      state_file = Some demo_session,
      processes = [4711]\<rparr>"

text \<open>The session after the user has removed the metadata from the staging directory.\<close>

definition no_repo_world :: world where
  "no_repo_world =
     \<lparr>files =
        [([''tmp'', ''dir-merge-1''], Dir),
         ([''tmp'', ''dir-merge-1'', ''a.txt''], File ''2'' 200),
         ([''tmp'', ''dir-merge-1'', ''b.txt''], File ''x'' 200),
         ([], Dir), ([''tmp''], Dir), ([''home''], Dir),
         ([''src''], Dir), ([''src'', ''a.txt''], File ''1'' 100),
         ([''tgt''], Dir), ([''tgt'', ''a.txt''], File ''2'' 200), ([''tgt'', ''b.txt''], File ''x'' 200)],
      state_file = Some demo_session,
      processes = [4711]\<rparr>"

text \<open>
  The environment of a command typed in the spawned shell, and one in which git cannot be
  started.
\<close>

definition inside_env :: env where
  "inside_env = demo_env\<lparr>cwd := [''tmp'', ''dir-merge-1'']\<rparr>"

definition no_git_env :: env where
  "no_git_env = demo_env\<lparr>git_ok := False\<rparr>"

text \<open>
  The same session with the shell already gone, and with edits the user made in the
  staging directory and never staged: \<^verbatim>\<open>a.txt\<close> changed and an untracked \<^verbatim>\<open>c.txt\<close> added.
\<close>

definition shell_gone_world :: world where
  "shell_gone_world = active_world\<lparr>processes := []\<rparr>"

definition edited_world :: world where
  "edited_world =
     active_world\<lparr>files :=
       ([''tmp'', ''dir-merge-1'', ''a.txt''], File ''edited'' 250) #
       ([''tmp'', ''dir-merge-1'', ''c.txt''], File ''new'' 250) # files active_world\<rparr>"

text \<open>The environment of a second \<^verbatim>\<open>merge\<close>, typed in the spawned shell.\<close>

definition second_env :: env where
  "second_env =
     \<lparr>cwd = [''tmp'', ''dir-merge-1''], mkdtemp_result = [''tmp'', ''dir-merge-2''],
      popen_pid = Some 4712, git_ok = True, rsync_ok = True, git_status_stdout = [], now = 300,
      ignore_match = log_pattern, ignored_elsewhere = (\<lambda>p. False)\<rparr>"

text \<open>
  A session whose source tracks a \<^verbatim>\<open>.gitignore\<close> with the pattern \<^verbatim>\<open>*.log\<close>; the target
  has the same files as the source. \<open>log_session_world\<close> is the world after \<^verbatim>\<open>merge\<close> has
  run there and the user, in the spawned shell, has changed the tracked \<^verbatim>\<open>a.txt\<close> and
  created \<^verbatim>\<open>c.txt\<close> and \<^verbatim>\<open>c.log\<close>, staging none of it.
\<close>

definition log_source_world :: world where
  "log_source_world =
     \<lparr>files =
        [([], Dir), ([''tmp''], Dir), ([''home''], Dir),
         ([''src''], Dir), ([''src'', ''.gitignore''], File ''*.log'' 100),
         ([''src'', ''a.txt''], File ''1'' 100),
         ([''tgt''], Dir), ([''tgt'', ''.gitignore''], File ''*.log'' 100),
         ([''tgt'', ''a.txt''], File ''1'' 100)],
      state_file = None,
      processes = []\<rparr>"

definition log_session_world :: world where
  "log_session_world =
     (let w = snd (merge_command demo_env demo_args log_source_world)
      in w\<lparr>files :=
           ([''tmp'', ''dir-merge-1'', ''a.txt''], File ''edited'' 250) #
           ([''tmp'', ''dir-merge-1'', ''c.txt''], File ''new'' 250) #
           ([''tmp'', ''dir-merge-1'', ''c.log''], File ''new'' 250) # files w\<rparr>)"

definition finish_env :: env where
  "finish_env = inside_env\<lparr>now := 400\<rparr>"

section \<open>Lookups in rewritten trees\<close>

lemmas demo_defs = demo_world_def demo_env_def demo_args_def demo_session_def demo_repo_def
  active_world_def inside_env_def orphan_world_def no_git_env_def no_repo_world_def

lemma relative_to_Some_iff: "relative_to p x = Some q \<longleftrightarrow> x = p @ q"
  by (induction p x rule: relative_to.induct) auto

lemma relative_to_append [simp]: "relative_to p (p @ q) = Some q"
  by (simp add: relative_to_Some_iff)

lemma relative_to_self [simp]: "relative_to p p = Some []"
  by (simp add: relative_to_Some_iff)

lemma relative_to_None_iff: "relative_to p x = None \<longleftrightarrow> \<not> prefix p x"
  by (induction p x rule: relative_to.induct) auto

lemma map_of_filter_key:
  "map_of (filter (\<lambda>(k, v). P k) xs) k = (if P k then map_of xs k else None)"
  by (induction xs) auto

lemma map_of_place:
  "map_of (map (\<lambda>(q, n). (base @ q, n)) t) x =
     (case relative_to base x of None \<Rightarrow> None | Some q \<Rightarrow> map_of t q)"
proof (induction t)
  case Nil
  then show ?case by (simp split: option.split)
next
  case (Cons a t)
  obtain q n where a: "a = (q, n)" by (cases a)
  show ?case
  proof (cases "relative_to base x")
    case None
    then have "x \<noteq> base @ q" by (auto simp: relative_to_Some_iff)
    with None Cons show ?thesis by (simp add: a)
  next
    case (Some r)
    then have "x = base @ r" by (simp add: relative_to_Some_iff)
    with Some Cons show ?thesis by (simp add: a)
  qed
qed

lemma lookup_subtree: "lookup (subtree fs p) q = lookup fs (p @ q)"
proof (induction fs)
  case Nil
  then show ?case by (simp add: lookup_def)
next
  case (Cons a fs)
  obtain x n where a: "a = (x, n)" by (cases a)
  show ?case
  proof (cases "relative_to p x")
    case None
    then have "x \<noteq> p @ q" by (auto simp: relative_to_Some_iff)
    with None Cons show ?thesis by (simp add: a lookup_def)
  next
    case (Some r)
    then have "x = p @ r" by (simp add: relative_to_Some_iff)
    with Some Cons show ?thesis by (simp add: a lookup_def)
  qed
qed

lemma subtree_empty_lookup: "subtree fs p = [] \<Longrightarrow> lookup fs (p @ q) = None"
  using lookup_subtree [of fs p q] by (simp add: lookup_def)

lemma lookup_Nil [simp]: "lookup [] q = None"
  by (simp add: lookup_def)

lemma lookup_filter_key:
  "lookup (filter (\<lambda>(k, v). P k) xs) k = (if P k then lookup xs k else None)"
  by (simp add: lookup_def map_of_filter_key)

lemma lookup_rewrite_tree:
  "lookup (rewrite_tree base t keep fs) x =
     (case relative_to base x of
        None \<Rightarrow> lookup fs x
      | Some q \<Rightarrow>
          (case lookup t q of
             Some n \<Rightarrow> Some n
           | None \<Rightarrow> if keep q then lookup fs x else None))"
proof -
  have "map_of (filter (\<lambda>(x, n). case relative_to base x of None \<Rightarrow> True | Some q \<Rightarrow> keep q) fs) x =
        (if (case relative_to base x of None \<Rightarrow> True | Some q \<Rightarrow> keep q) then map_of fs x else None)"
    by (rule map_of_filter_key)
  then show ?thesis
    by (simp add: lookup_def rewrite_tree_def map_add_def map_of_place split: option.split)
qed

lemma lookup_rewrite_tree_outside:
  "\<not> prefix base x \<Longrightarrow> lookup (rewrite_tree base t keep fs) x = lookup fs x"
  by (simp add: lookup_rewrite_tree relative_to_None_iff [symmetric])

lemma lookup_rewrite_tree_below:
  "lookup (rewrite_tree base t keep fs) (base @ q) =
     (case lookup t q of
        Some n \<Rightarrow> Some n
      | None \<Rightarrow> if keep q then lookup fs (base @ q) else None)"
  by (simp add: lookup_rewrite_tree)

lemma map_of_const_value:
  "\<forall>(k, v) \<in> set xs. v = c \<Longrightarrow> map_of xs q = (if q \<in> fst ` set xs then Some c else None)"
  by (induction xs) auto

lemma lookup_None_iff: "lookup fs x = None \<longleftrightarrow> x \<notin> fst ` set fs"
  by (simp add: lookup_def map_of_eq_None_iff)

lemma quick_equal_iff:
  "quick_equal a b \<longleftrightarrow>
     (\<exists>c c' m. a = Some (File c m) \<and> b = Some (File c' m) \<and> length c = length c')"
  by (cases "(a, b)" rule: quick_equal.cases) auto

lemma holds_protected_iff:
  "holds_protected fs p \<longleftrightarrow> (\<exists>r. r \<noteq> [] \<and> excluded r \<and> lookup fs (p @ r) \<noteq> None)"
proof
  assume "holds_protected fs p"
  then obtain x r where "x \<in> fst ` set fs" "relative_to p x = Some r" "r \<noteq> []" "excluded r"
    by (auto simp: holds_protected_def list_ex_iff split: option.splits)
  then show "\<exists>r. r \<noteq> [] \<and> excluded r \<and> lookup fs (p @ r) \<noteq> None"
    by (auto simp: relative_to_Some_iff lookup_None_iff)
next
  assume "\<exists>r. r \<noteq> [] \<and> excluded r \<and> lookup fs (p @ r) \<noteq> None"
  then obtain r where r: "r \<noteq> []" "excluded r" "p @ r \<in> fst ` set fs"
    by (auto simp: lookup_None_iff)
  then show "holds_protected fs p"
    unfolding holds_protected_def list_ex_iff
    by (intro bexI [of _ "p @ r"]) auto
qed

section \<open>What the single steps do\<close>

lemma lookup_rmtree:
  "rmtree p w = Inr w' \<Longrightarrow>
     lookup (files w') x = (if prefix p x then None else lookup (files w) x)"
  by (auto simp: rmtree_def lookup_rewrite_tree_outside lookup_rewrite_tree_below
      elim!: prefixE split: if_splits)

lemma try_steps_append:
  "try_steps (xs @ ys) w =
     (case try_steps xs w of
        (Inl err, w') \<Rightarrow> (Inl err, w')
      | (Inr u, w') \<Rightarrow> try_steps ys w')"
  by (induction xs arbitrary: w) (auto split: sum.splits)

lemma try_steps_error_from_step:
  "try_steps ss w = (Inl err, w') \<Longrightarrow> \<exists>s \<in> set ss. s w' = Inl err"
  by (induction ss arbitrary: w) (auto split: sum.splits)

lemma try_steps_invariant:
  assumes step: "\<And>s v v'. s \<in> set ss \<Longrightarrow> s v = Inr v' \<Longrightarrow> R v v'"
    and refl: "\<And>v. R v v"
    and trans: "\<And>a b c. R a b \<Longrightarrow> R b c \<Longrightarrow> R a c"
  shows "R w (snd (try_steps ss w))"
  using step
proof (induction ss arbitrary: w)
  case Nil
  show ?case by (simp add: refl)
next
  case (Cons s ss)
  show ?case
  proof (cases "s w")
    case (Inl err)
    then show ?thesis by (simp add: refl)
  next
    case (Inr w1)
    have "R w w1" using Cons.prems [of s w w1] Inr by simp
    moreover have "R w1 (snd (try_steps ss w1))"
    proof (rule Cons.IH)
      fix s' v v'
      assume "s' \<in> set ss" "s' v = Inr v'"
      then show "R v v'" using Cons.prems [of s' v v'] by simp
    qed
    ultimately show ?thesis using Inr by (auto intro: trans)
  qed
qed

lemma lookup_put_repo:
  "lookup (files (put_repo dir r w)) x =
     (if x = git_dir dir then Some (GitMeta r) else lookup (files w) x)"
  by (simp add: put_repo_def lookup_def)

lemma put_repo_rest [simp]:
  "state_file (put_repo dir r w) = state_file w"
  "processes (put_repo dir r w) = processes w"
  by (simp_all add: put_repo_def)

lemma mkdtemp_Inr:
  assumes "mkdtemp e w = Inr w'"
  shows "w' = w\<lparr>files := (mkdtemp_result e, Dir) # files w\<rparr>"
    and "lookup (files w) (mkdtemp_result e @ q) = None"
  using assms subtree_empty_lookup [of "files w" "mkdtemp_result e" q]
  by (auto simp: mkdtemp_def split: if_splits)

lemma lookup_mkdtemp:
  "mkdtemp e w = Inr w' \<Longrightarrow>
     lookup (files w') x = (if x = mkdtemp_result e then Some Dir else lookup (files w) x)"
  by (auto simp: mkdtemp_def lookup_def split: if_splits)

lemma copytree_Inr:
  assumes "copytree src dst w = Inr w'"
  shows "w' = w\<lparr>files := rewrite_tree dst (subtree (files w) src) (\<lambda>q. True) (files w)\<rparr>"
    and "is_dir (files w) src"
  using assms by (auto simp: copytree_def split: if_splits)

lemma lookup_copytree_below:
  "copytree src dst w = Inr w' \<Longrightarrow>
     lookup (files w') (dst @ q) =
       (case lookup (files w) (src @ q) of
          Some n \<Rightarrow> Some n
        | None \<Rightarrow> lookup (files w) (dst @ q))"
  by (auto simp: copytree_def lookup_rewrite_tree_below lookup_subtree split: if_splits)

lemma lookup_copytree_outside:
  "copytree src dst w = Inr w' \<Longrightarrow> \<not> prefix dst x \<Longrightarrow>
     lookup (files w') x = lookup (files w) x"
  by (auto simp: copytree_def lookup_rewrite_tree_outside split: if_splits)

lemma rsync_Inr:
  assumes "rsync e src dst w = Inr w'"
  shows "state_file w' = state_file w \<and> processes w' = processes w"
    and "is_dir (files w) src" and "rsync_ok e"
    and "\<not> in_the_way (files w) src dst q"
proof -
  from assms show "state_file w' = state_file w \<and> processes w' = processes w"
    and "is_dir (files w) src" and "rsync_ok e"
    by (auto simp: rsync_def split: if_splits)
  from assms have no: "\<not> list_ex (in_the_way (files w) src dst) (map fst (subtree (files w) src))"
    by (auto simp: rsync_def split: if_splits)
  show "\<not> in_the_way (files w) src dst q"
  proof
    assume a: "in_the_way (files w) src dst q"
    then have "lookup (subtree (files w) src) q \<noteq> None"
      by (auto simp: in_the_way_def file_at_def lookup_subtree split: option.splits)
    then have "q \<in> set (map fst (subtree (files w) src))"
      by (simp add: lookup_None_iff)
    with a no show False by (auto simp: list_ex_iff)
  qed
qed

lemma lookup_rsync_below:
  "rsync e src dst w = Inr w' \<Longrightarrow>
     lookup (files w') (dst @ q) =
       (if excluded q \<or> skipped (files w) src dst q then lookup (files w) (dst @ q)
        else case lookup (files w) (src @ q) of
               Some n \<Rightarrow> Some n
             | None \<Rightarrow>
                 if is_dir (files w) (dst @ q) \<and> holds_protected (files w) (dst @ q)
                 then Some Dir else None)"
  by (auto simp: rsync_def lookup_rewrite_tree_below lookup_filter_key lookup_subtree stays_def
      is_dir_def split: if_splits option.splits)

lemma lookup_rsync_outside:
  "rsync e src dst w = Inr w' \<Longrightarrow> \<not> prefix dst x \<Longrightarrow>
     lookup (files w') x = lookup (files w) x"
  by (auto simp: rsync_def lookup_rewrite_tree_outside split: if_splits)

lemma lookup_mkdir_parents:
  "mkdir_parents p w = Inr w' \<Longrightarrow>
     lookup (files w') x = (if prefix x p then Some Dir else lookup (files w) x)"
proof -
  have "map_of (map (\<lambda>d. (d, Dir)) (prefixes p)) x = (if prefix x p then Some Dir else None)"
    using map_of_const_value [of "map (\<lambda>d. (d, Dir)) (prefixes p)" Dir x]
    by (auto simp: image_iff)
  then show "mkdir_parents p w = Inr w' \<Longrightarrow> ?thesis"
    by (auto simp: mkdir_parents_def lookup_def map_add_def split: if_splits)
qed

lemma mkdir_parents_rest:
  "mkdir_parents p w = Inr w' \<Longrightarrow> state_file w' = state_file w \<and> processes w' = processes w"
  by (auto simp: mkdir_parents_def split: if_splits)

lemma run_git_Inr:
  "run_git e dir body w = Inr w' \<longleftrightarrow> is_dir (files w) dir \<and> git_ok e \<and> body w = Inr w'"
  by (simp add: run_git_def)

lemma with_repo_Inr:
  "with_repo dir body w = Inr w' \<longleftrightarrow>
     (\<exists>r. lookup (files w) (git_dir dir) = Some (GitMeta r) \<and> body r = Inr w')"
  by (auto simp: with_repo_def split: option.splits node.splits)

lemma git_init_Inr:
  assumes "git_init e dir w = Inr w'"
  shows "\<exists>r. lookup (files w') (git_dir dir) = Some (GitMeta r)"
    and "x \<noteq> git_dir dir \<Longrightarrow> lookup (files w') x = lookup (files w) x"
    and "state_file w' = state_file w" and "processes w' = processes w"
  using assms
  by (auto simp: git_init_def run_git_Inr lookup_put_repo split: option.splits node.splits)

lemma git_config_Inr:
  assumes "git_config e k v dir w = Inr w'"
  shows "\<exists>r. lookup (files w') (git_dir dir) = Some (GitMeta r)"
    and "x \<noteq> git_dir dir \<Longrightarrow> lookup (files w') x = lookup (files w) x"
    and "state_file w' = state_file w" and "processes w' = processes w"
  using assms
  by (auto simp: git_config_def run_git_Inr with_repo_Inr lookup_put_repo)

lemma git_add_all_Inr:
  assumes "git_add_all e dir w = Inr w'"
  shows "\<exists>r0 r. lookup (files w) (git_dir dir) = Some (GitMeta r0) \<and>
           lookup (files w') (git_dir dir) = Some (GitMeta r) \<and>
           index r = stage e (index r0) (subtree (files w) dir) \<and> commits r = commits r0"
    and "x \<noteq> git_dir dir \<Longrightarrow> lookup (files w') x = lookup (files w) x"
    and "state_file w' = state_file w" and "processes w' = processes w"
  using assms
  by (auto simp: git_add_all_def run_git_Inr with_repo_Inr lookup_put_repo Let_def
      split: if_splits)

lemma git_commit_Inr:
  assumes "git_commit e msg dir w = Inr w'"
  shows "\<exists>r r'. lookup (files w) (git_dir dir) = Some (GitMeta r) \<and>
           lookup (files w') (git_dir dir) = Some (GitMeta r') \<and>
           index r' = index r \<and> commits r' = (msg, index r) # commits r"
    and "x \<noteq> git_dir dir \<Longrightarrow> lookup (files w') x = lookup (files w) x"
    and "state_file w' = state_file w" and "processes w' = processes w"
  using assms
  by (auto simp: git_commit_def run_git_Inr with_repo_Inr lookup_put_repo split: if_splits)

lemma not_below_tracked_Nil [simp]: "\<not> below_tracked idx []"
  by (simp add: below_tracked_def list_ex_iff)

lemma git_checkout_all_Inr:
  assumes "git_checkout_all e dir w = Inr w'"
  shows "\<exists>r. lookup (files w) (git_dir dir) = Some (GitMeta r) \<and> index r \<noteq> [] \<and>
           files w' =
             rewrite_tree dir (checkout_tree (now e) (subtree (files w) dir) (index r))
               (\<lambda>q. \<not> below_tracked (index r) q) (files w)"
    and "is_dir (files w) dir"
    and "state_file w' = state_file w \<and> processes w' = processes w"
    and "\<not> prefix dir x \<Longrightarrow> lookup (files w') x = lookup (files w) x"
  using assms
  by (auto simp: git_checkout_all_def run_git_Inr with_repo_Inr lookup_rewrite_tree_outside
      split: if_splits)

lemma git_clean_Inr:
  assumes "git_clean e dir w = Inr w'"
  shows "\<exists>r. lookup (files w) (git_dir dir) = Some (GitMeta r) \<and>
           files w' =
             rewrite_tree dir [] (clean_keeps e (index r) (subtree (files w) dir)) (files w)"
    and "is_dir (files w) dir"
    and "state_file w' = state_file w \<and> processes w' = processes w"
    and "\<not> prefix dir x \<Longrightarrow> lookup (files w') x = lookup (files w) x"
  using assms
  by (auto simp: git_clean_def run_git_Inr with_repo_Inr lookup_rewrite_tree_outside
      split: if_splits)

lemma excluded_git [simp]: "excluded [''.git'']"
  by (simp add: excluded_def)

lemma prefix_append_cases:
  "prefix a (b @ c) \<Longrightarrow> prefix a b \<or> prefix b a"
  by (auto simp: prefix_append)

lemma publish_steps_Inr:
  "try_steps (publish_steps e s) w = (Inr u, w1) \<longleftrightarrow>
     (\<exists>wa wb wc.
        mkdir_parents (output_dir s) w = Inr wa \<and>
        git_checkout_all e (temp_repo_path s) wa = Inr wb \<and>
        git_clean e (temp_repo_path s) wb = Inr wc \<and>
        rsync e (temp_repo_path s) (output_dir s) wc = Inr w1)"
  by (auto simp: publish_steps_def split: sum.splits)

lemma publish_keeps_staging:
  assumes pub: "try_steps (publish_steps e s) w = (Inr u, w1)"
    and out: "\<not> prefix (output_dir s) (temp_repo_path s)"
  shows "is_dir (files w1) (temp_repo_path s)"
    and "state_file w1 = state_file w" and "processes w1 = processes w"
proof -
  from pub obtain wa wb wc where
    mk: "mkdir_parents (output_dir s) w = Inr wa" and
    co: "git_checkout_all e (temp_repo_path s) wa = Inr wb" and
    cl: "git_clean e (temp_repo_path s) wb = Inr wc" and
    rs: "rsync e (temp_repo_path s) (output_dir s) wc = Inr w1"
    by (auto simp: publish_steps_Inr)
  from rsync_Inr(2) [OF rs] lookup_rsync_outside [OF rs out]
  show "is_dir (files w1) (temp_repo_path s)" by (simp add: is_dir_def)
  from git_checkout_all_Inr(3) [OF co] git_clean_Inr(3) [OF cl] mkdir_parents_rest [OF mk]
    rsync_Inr(1) [OF rs]
  show "state_file w1 = state_file w" and "processes w1 = processes w" by auto
qed

lemma publish_needs_directory:
  assumes pub: "try_steps (publish_steps e s) w = (Inr u, w1)"
    and there: "path_exists (files w) (temp_repo_path s)"
  shows "is_dir (files w) (temp_repo_path s)"
proof -
  let ?temp = "temp_repo_path s" and ?out = "output_dir s"
  from pub obtain wa wb where
    mk: "mkdir_parents ?out w = Inr wa" and
    co: "git_checkout_all e ?temp wa = Inr wb"
    by (auto simp: publish_steps_Inr)
  show ?thesis
  proof (cases "prefix ?temp ?out")
    case True
    then have "?temp \<in> set (prefixes ?out)" by (simp add: in_set_prefixes)
    moreover from mk have
      "\<not> list_ex (\<lambda>d. path_exists (files w) d \<and> \<not> is_dir (files w) d) (prefixes ?out)"
      by (auto simp: mkdir_parents_def split: if_splits)
    ultimately show ?thesis using there by (auto simp: list_ex_iff)
  next
    case False
    with git_checkout_all_Inr(2) [OF co] lookup_mkdir_parents [OF mk, of ?temp]
    show ?thesis by (simp add: is_dir_def)
  qed
qed

lemma kill_shell_Inr:
  "kill_shell s w = Inr w' \<Longrightarrow> files w' = files w \<and> state_file w' = state_file w"
  by (auto simp: kill_shell_def os_kill_def Let_def split: if_splits)

lemma kill_shell_Inl:
  "kill_shell s w = Inl err \<longleftrightarrow>
     err = IOError \<and> (\<exists>pid. shell_pid s = Some pid \<and> 0 < pid \<and> pid \<notin> set (processes w))"
  by (auto simp: kill_shell_def os_kill_def Let_def split: if_splits option.splits)

text \<open>
  What \<^verbatim>\<open>finish\<close> leaves behind once the mirror to the output directory has succeeded:
  the staging directory is removed from the world after the mirror, the session record is
  cleared, and the outcome is that of the signal.
\<close>

lemma finish_after_publish:
  assumes active: "state_file w = Some s"
    and here: "cwd e = temp_repo_path s"
    and there: "path_exists (files w) (temp_repo_path s)"
    and pub: "try_steps (publish_steps e s) w = (Inr u, w1)"
    and out: "\<not> prefix (output_dir s) (temp_repo_path s)"
  shows "state_file (snd (finish_command e w)) = None"
    and "files (snd (finish_command e w)) =
           rewrite_tree (temp_repo_path s) [] (\<lambda>q. False) (files w1)"
    and "fst (finish_command e w) =
           (if \<exists>pid. shell_pid s = Some pid \<and> 0 < pid \<and> pid \<notin> set (processes w)
            then Inl IOError else Inr ())"
proof -
  let ?temp = "temp_repo_path s"
  let ?w2 = "w1\<lparr>files := rewrite_tree ?temp [] (\<lambda>q. False) (files w1)\<rparr>"
  let ?w3 = "clear_session_state ?w2"
  from publish_keeps_staging [OF pub out]
  have dir: "is_dir (files w1) ?temp" and procs: "processes w1 = processes w" by simp_all
  then have rm: "rmtree ?temp w1 = Inr ?w2" by (simp add: rmtree_def)
  from publish_needs_directory [OF pub there] here
  have cwd: "path_cwd e w = Inr ?temp" by (simp add: path_cwd_def)
  have fin: "finish_command e w =
      (case kill_shell s ?w3 of Inl err \<Rightarrow> (Inl err, ?w3) | Inr w4 \<Rightarrow> (Inr (), w4))"
    using active cwd there pub rm
    by (simp add: finish_command_def load_session_state_def try_steps_append teardown_steps_def
        split: sum.split)
  have p3: "processes ?w3 = processes w" by (simp add: clear_session_state_def procs)
  show "state_file (snd (finish_command e w)) = None"
    by (auto simp: fin clear_session_state_def split: sum.split dest: kill_shell_Inr)
  show "files (snd (finish_command e w)) = rewrite_tree ?temp [] (\<lambda>q. False) (files w1)"
    by (auto simp: fin clear_session_state_def split: sum.split dest: kill_shell_Inr)
  show "fst (finish_command e w) =
           (if \<exists>pid. shell_pid s = Some pid \<and> 0 < pid \<and> pid \<notin> set (processes w)
            then Inl IOError else Inr ())"
  proof (cases "kill_shell s ?w3")
    case (Inl err)
    then have "err = IOError"
      and "\<exists>pid. shell_pid s = Some pid \<and> 0 < pid \<and> pid \<notin> set (processes w)"
      using p3 by (simp_all add: kill_shell_Inl)
    with Inl show ?thesis by (simp add: fin)
  next
    case (Inr w4)
    have "\<not> (\<exists>pid. shell_pid s = Some pid \<and> 0 < pid \<and> pid \<notin> set (processes w))"
    proof
      assume "\<exists>pid. shell_pid s = Some pid \<and> 0 < pid \<and> pid \<notin> set (processes w)"
      then have "kill_shell s ?w3 = Inl IOError" using p3 by (simp add: kill_shell_Inl)
      with Inr show False by simp
    qed
    with Inr show ?thesis by (simp add: fin)
  qed
qed

lemma finish_Inr_publish:
  assumes active: "state_file w = Some s"
    and ok: "fst (finish_command e w) = Inr ()"
  shows "cwd e = temp_repo_path s" and "path_exists (files w) (temp_repo_path s)"
    and "\<exists>w1. try_steps (publish_steps e s) w = (Inr (), w1)"
proof -
  from active ok show "cwd e = temp_repo_path s"
    by (auto simp: finish_command_def load_session_state_def path_cwd_def Let_def
        split: if_splits)
  from active ok show "path_exists (files w) (temp_repo_path s)"
    by (auto simp: finish_command_def load_session_state_def path_cwd_def Let_def
        split: if_splits)
  from active ok have "fst (try_steps (publish_steps e s @ teardown_steps s) w) = Inr ()"
    by (auto simp: finish_command_def load_session_state_def path_cwd_def Let_def
        split: if_splits)
  then show "\<exists>w1. try_steps (publish_steps e s) w = (Inr (), w1)"
    by (cases "try_steps (publish_steps e s) w")
      (auto simp: try_steps_append split: sum.splits)
qed

lemma popen_shell_Inr:
  "popen_shell e dir w = Inr w' \<Longrightarrow>
     files w' = files w \<and> state_file w' = state_file w \<and>
     (\<exists>pid. popen_pid e = Some pid \<and> processes w' = pid # processes w)"
  by (auto simp: popen_shell_def split: option.splits if_splits)

lemma save_session_state_simps [simp]:
  "files (save_session_state st w) = files w"
  "state_file (save_session_state st w) = Some st"
  "processes (save_session_state st w) = processes w"
  by (simp_all add: save_session_state_def)

text \<open>The steps of \<^verbatim>\<open>merge\<close> write at and below the new staging directory only.\<close>

lemma merge_step_frame:
  assumes "s \<in> set (merge_steps e a)" and "s v = Inr v'"
    and "\<not> prefix (mkdtemp_result e) x"
  shows "lookup (files v') x = lookup (files v) x"
proof -
  from assms(3) have "x \<noteq> mkdtemp_result e" "x \<noteq> git_dir (mkdtemp_result e)"
    by (auto simp: git_dir_def)
  with assms show ?thesis
    by (auto simp: merge_steps_def Let_def lookup_mkdtemp lookup_copytree_outside
        lookup_rsync_outside git_init_Inr(2) git_config_Inr(2) git_add_all_Inr(2)
        git_commit_Inr(2) dest: popen_shell_Inr)
qed

lemma merge_frame:
  assumes "\<not> prefix (mkdtemp_result e) x"
  shows "lookup (files (snd (merge_command e a w))) x = lookup (files w) x"
proof -
  have "lookup (files (snd (try_steps (merge_steps e a) w))) x = lookup (files w) x"
    by (rule try_steps_invariant
        [where R = "\<lambda>v v'. lookup (files v') x = lookup (files v) x" and ss = "merge_steps e a"])
      (simp_all add: merge_step_frame [OF _ _ assms])
  then show ?thesis by (simp add: merge_command_def path_cwd_def)
qed

lemma merge_step_errors:
  assumes "s \<in> set (merge_steps e a)" and "s v = Inl err"
  shows "err = IOError \<or> err = ExternalToolError"
  using assms
  by (auto simp: merge_steps_def Let_def mkdtemp_def copytree_def git_init_def git_config_def
      git_add_all_def git_commit_def rsync_def popen_shell_def run_git_def with_repo_def Let_def
      split: if_splits option.splits node.splits)

lemma merge_errors:
  assumes "fst (merge_command e a w) = Inl err"
  shows "err = ValidationError (source a) \<or> err = ValidationError (target a) \<or>
         err = FileNotFoundError \<or> err = IOError \<or> err = ExternalToolError"
proof (cases "is_dir (files w) (source a) \<and> is_dir (files w) (target a) \<and>
    is_dir (files w) (cwd e)")
  case False
  with assms show ?thesis by (auto simp: merge_command_def path_cwd_def split: if_splits)
next
  case True
  with assms have "fst (try_steps (merge_steps e a) w) = Inl err"
    by (simp add: merge_command_def path_cwd_def)
  then obtain w' where "try_steps (merge_steps e a) w = (Inl err, w')"
    by (cases "try_steps (merge_steps e a) w") auto
  from try_steps_error_from_step [OF this] merge_step_errors [of _ e a _ err]
  show ?thesis by blast
qed

lemma merge_steps_Inr:
  assumes "try_steps (merge_steps e a) w = (Inr u, w')"
  shows "\<exists>w1 w2 w3 w4 w5 w6 w7 w8 w10.
           mkdtemp e w = Inr w1 \<and>
           copytree (source a) (mkdtemp_result e) w1 = Inr w2 \<and>
           git_init e (mkdtemp_result e) w2 = Inr w3 \<and>
           git_config e ''user.email'' ''dir-merge@local'' (mkdtemp_result e) w3 = Inr w4 \<and>
           git_config e ''user.name'' ''dir-merge'' (mkdtemp_result e) w4 = Inr w5 \<and>
           git_add_all e (mkdtemp_result e) w5 = Inr w6 \<and>
           git_commit e ''BASE'' (mkdtemp_result e) w6 = Inr w7 \<and>
           rsync e (target a) (mkdtemp_result e) w7 = Inr w8 \<and>
           popen_shell e (mkdtemp_result e) (save_session_state (new_session e a) w8) = Inr w10 \<and>
           w' = save_session_state ((new_session e a)\<lparr>shell_pid := popen_pid e\<rparr>) w10"
  using assms by (auto simp: merge_steps_def Let_def split: sum.splits)

lemma merge_Inr_state_file:
  assumes "fst (merge_command e a w) = Inr ()"
  shows "state_file (snd (merge_command e a w)) = Some ((new_session e a)\<lparr>shell_pid := popen_pid e\<rparr>)"
proof -
  obtain w' where w': "merge_command e a w = (Inr (), w')"
    using assms by (cases "merge_command e a w") auto
  then have "try_steps (merge_steps e a) w = (Inr (), w')"
    by (auto simp: merge_command_def path_cwd_def split: if_splits)
  from merge_steps_Inr [OF this] show ?thesis by (auto simp: w')
qed

section \<open>The claims\<close>

subsection \<open>C1: merge while a session is active\<close>

text \<open>
  C1 as stated does not hold. \<^verbatim>\<open>merge_command\<close> never reads the session file: run
  while a session is active, it builds a second staging directory, succeeds, and saves its
  own record over the existing one.
\<close>

theorem merge_while_active_counterexample:
  "state_file active_world = Some demo_session \<and>
   fst (merge_command second_env demo_args active_world) = Inr () \<and>
   state_file (snd (merge_command second_env demo_args active_world)) =
     Some \<lparr>temp_repo_path = [''tmp'', ''dir-merge-2''], original_cwd = [''tmp'', ''dir-merge-1''],
           output_dir = [''src''], source_dir = [''src''], target_dir = [''tgt''],
           shell_pid = Some 4712\<rparr> \<and>
   state_file (snd (merge_command second_env demo_args active_world)) \<noteq>
     state_file active_world"
  by code_simp

text \<open>
  C1, amended. \<^verbatim>\<open>merge\<close> does not check for an active session: invoked while a session
  record exists it never fails with \<open>SessionAlreadyActiveError\<close>; when it runs through,
  the record is replaced by the record of the new session; and whatever its outcome, nothing
  at or below the existing staging directory changes, the new staging directory being a
  separate directory.
\<close>

theorem merge_overwrites_session:
  assumes "state_file w = Some s"
    and "separate (temp_repo_path s) (mkdtemp_result e)"
  shows "fst (merge_command e a w) \<noteq> Inl SessionAlreadyActiveError \<and>
         (fst (merge_command e a w) = Inr () \<longrightarrow>
            state_file (snd (merge_command e a w)) =
              Some ((new_session e a)\<lparr>shell_pid := popen_pid e\<rparr>)) \<and>
         (\<forall>q. lookup (files (snd (merge_command e a w))) (temp_repo_path s @ q) =
               lookup (files w) (temp_repo_path s @ q))"
proof (intro conjI impI allI)
  show "fst (merge_command e a w) \<noteq> Inl SessionAlreadyActiveError"
    using merge_errors [of e a w SessionAlreadyActiveError] by auto
next
  assume "fst (merge_command e a w) = Inr ()"
  then show "state_file (snd (merge_command e a w)) =
      Some ((new_session e a)\<lparr>shell_pid := popen_pid e\<rparr>)"
    by (rule merge_Inr_state_file)
next
  fix q
  from assms(2) have "\<not> prefix (mkdtemp_result e) (temp_repo_path s @ q)"
    using prefix_append_cases [of "mkdtemp_result e" "temp_repo_path s" q]
    by (auto simp: separate_def)
  then show "lookup (files (snd (merge_command e a w))) (temp_repo_path s @ q) =
      lookup (files w) (temp_repo_path s @ q)"
    by (rule merge_frame)
qed

theorem merge_overwrites_session_witness:
  "state_file active_world = Some demo_session \<and>
   separate (temp_repo_path demo_session) (mkdtemp_result second_env) \<and>
   fst (merge_command second_env demo_args active_world) = Inr () \<and>
   state_file (snd (merge_command second_env demo_args active_world)) =
     Some ((new_session second_env demo_args)\<lparr>shell_pid := popen_pid second_env\<rparr>) \<and>
   lookup (files (snd (merge_command second_env demo_args active_world)))
       (temp_repo_path demo_session @ [''b.txt'']) =
     lookup (files active_world) (temp_repo_path demo_session @ [''b.txt''])"
proof -
  have a: "state_file active_world = Some demo_session" by (simp add: demo_defs)
  have b: "separate (temp_repo_path demo_session) (mkdtemp_result second_env)"
    by (simp add: separate_def demo_defs second_env_def)
  have c: "fst (merge_command second_env demo_args active_world) = Inr ()" by code_simp
  from merge_overwrites_session [OF a b, of demo_args] a b c
  show ?thesis by blast
qed

subsection \<open>C3: unstaged edits and untracked files\<close>

text \<open>
  C3 says that \<^verbatim>\<open>finish\<close> discards an edit that was never staged and removes all
  untracked files, so that the output is the staged state. The comments of the code say the
  same of lines 196 and 203. The code discards the edit, but \<^verbatim>\<open>git clean -fd\<close> is run
  without \<^verbatim>\<open>-x\<close>: it removes the untracked files that no ignore rule matches and leaves
  the ignored ones, and the mirror then copies them to the output. In the session below
  the source tracks a \<^verbatim>\<open>.gitignore\<close> with the pattern \<^verbatim>\<open>*.log\<close>; \<^verbatim>\<open>finish\<close> succeeds,
  the edit of \<^verbatim>\<open>a.txt\<close> and the untracked \<^verbatim>\<open>c.txt\<close> are gone, and the untracked
  \<^verbatim>\<open>c.log\<close>, which is neither in the index nor in any commit, is in the output.
\<close>

theorem finish_publishes_ignored_file:
  "state_file log_session_world = Some demo_session \<and>
   file_at (files log_session_world) [''tmp'', ''dir-merge-1'', ''a.txt''] = Some ''edited'' \<and>
   file_at (files log_session_world) [''tmp'', ''dir-merge-1'', ''c.txt''] = Some ''new'' \<and>
   file_at (files log_session_world) [''tmp'', ''dir-merge-1'', ''c.log''] = Some ''new'' \<and>
   (case lookup (files log_session_world) [''tmp'', ''dir-merge-1'', ''.git''] of
      Some (GitMeta r) \<Rightarrow>
        map fst (index r) = [[''.gitignore''], [''a.txt'']] \<and>
        map (\<lambda>c. map fst (snd c)) (commits r) = [[[''.gitignore''], [''a.txt'']]]
    | _ \<Rightarrow> False) \<and>
   file_at (files log_session_world) [''src'', ''c.log''] = None \<and>
   fst (finish_command finish_env log_session_world) = Inr () \<and>
   file_at (files (snd (finish_command finish_env log_session_world))) [''src'', ''a.txt''] =
     Some ''1'' \<and>
   file_at (files (snd (finish_command finish_env log_session_world))) [''src'', ''c.txt''] =
     None \<and>
   file_at (files (snd (finish_command finish_env log_session_world))) [''src'', ''c.log''] =
     Some ''new''"
  by code_simp

theorem finish_publishes_ignored_file_witness:
  "fst (finish_command finish_env log_session_world) = Inr () \<and>
   file_at (files (snd (finish_command finish_env log_session_world))) [''src'', ''c.log''] =
     Some ''new''"
  using finish_publishes_ignored_file by blast

subsection \<open>C4: finish from the wrong directory\<close>

text \<open>
  C4. For every active session, \<^verbatim>\<open>finish\<close> invoked with a current working directory other
  than the staging path fails, exits with status 1 and leaves the whole world as it was: the
  session record is intact and the staging directory untouched. The error is
  \<open>WrongLocationError\<close>, which carries the expected and the actual path, whenever the
  working directory is a directory that still exists, that is, whenever \<^verbatim>\<open>Path.cwd()\<close>
  returns at all.
\<close>

theorem finish_wrong_location:
  assumes "state_file w = Some s" and "cwd e \<noteq> temp_repo_path s"
  shows "exit_code (fst (finish_command e w)) = 1 \<and>
         snd (finish_command e w) = w \<and>
         (is_dir (files w) (cwd e) \<longrightarrow>
            finish_command e w = (Inl (WrongLocationError (temp_repo_path s) (cwd e)), w))"
  using assms
  by (simp add: finish_command_def load_session_state_def path_cwd_def exit_code_def)

theorem finish_wrong_location_witness:
  "state_file active_world = Some demo_session \<and>
   cwd demo_env \<noteq> temp_repo_path demo_session \<and>
   is_dir (files active_world) (cwd demo_env) \<and>
   exit_code (fst (finish_command demo_env active_world)) = 1 \<and>
   finish_command demo_env active_world =
     (Inl (WrongLocationError [''tmp'', ''dir-merge-1''] [''home'']), active_world)"
proof -
  have a: "state_file active_world = Some demo_session" by (simp add: demo_defs)
  have b: "cwd demo_env \<noteq> temp_repo_path demo_session" by (simp add: demo_defs)
  have c: "is_dir (files active_world) (cwd demo_env)" by code_simp
  have d: "temp_repo_path demo_session = [''tmp'', ''dir-merge-1'']" "cwd demo_env = [''home'']"
    by (simp_all add: demo_defs)
  note fact = finish_wrong_location [OF a b]
  from fact have "exit_code (fst (finish_command demo_env active_world)) = 1" by blast
  moreover from fact c have "finish_command demo_env active_world =
      (Inl (WrongLocationError (temp_repo_path demo_session) (cwd demo_env)), active_world)"
    by blast
  ultimately show ?thesis using a b c unfolding d by blast
qed

subsection \<open>C5: the staging directory is gone\<close>

text \<open>
  C5 says that \<^verbatim>\<open>finish\<close>, for a session whose staging directory no longer exists,
  reports \<open>StagingMissingError\<close> and clears the session record. Lines 181 to 185 of the
  code are written to do that, but no run reaches them. \<^verbatim>\<open>finish\<close> must be invoked from
  the staging directory, and line 167 asks for the working directory first: when the
  staging directory has been removed, a process that was in it has no working directory
  any more, \<^verbatim>\<open>Path.cwd()\<close> raises outside the \<^verbatim>\<open>try\<close> block and the command ends with
  a traceback; a process in any directory that exists is not in the staging directory and
  gets \<open>WrongLocationError\<close>. Either way \<open>StagingMissingError\<close> is never reported and the
  session record stays, with the whole world as it was.
\<close>

theorem finish_never_reports_missing_staging:
  assumes "state_file w = Some s"
    and "\<not> path_exists (files w) (temp_repo_path s)"
  shows "finish_command e w =
           (Inl (if is_dir (files w) (cwd e)
                 then WrongLocationError (temp_repo_path s) (cwd e)
                 else FileNotFoundError), w) \<and>
         fst (finish_command e w) \<noteq> Inl (StagingMissingError (temp_repo_path s)) \<and>
         state_file (snd (finish_command e w)) = Some s"
proof -
  have "cwd e \<noteq> temp_repo_path s" if "is_dir (files w) (cwd e)"
    using that assms(2) by (auto simp: is_dir_def path_exists_def)
  then have "finish_command e w =
           (Inl (if is_dir (files w) (cwd e)
                 then WrongLocationError (temp_repo_path s) (cwd e)
                 else FileNotFoundError), w)"
    using assms(1) by (simp add: finish_command_def load_session_state_def path_cwd_def)
  with assms(1) show ?thesis by simp
qed

theorem finish_never_reports_missing_staging_witness:
  "state_file orphan_world = Some demo_session \<and>
   path_exists (files orphan_world) (temp_repo_path demo_session) = False \<and>
   cwd inside_env = temp_repo_path demo_session \<and>
   finish_command inside_env orphan_world = (Inl FileNotFoundError, orphan_world) \<and>
   state_file (snd (finish_command inside_env orphan_world)) = Some demo_session"
proof -
  have a: "state_file orphan_world = Some demo_session" by (simp add: demo_defs)
  have b: "\<not> path_exists (files orphan_world) (temp_repo_path demo_session)" by code_simp
  have c: "cwd inside_env = temp_repo_path demo_session" by (simp add: demo_defs)
  have d: "is_dir (files orphan_world) (cwd inside_env) = False" by code_simp
  from finish_never_reports_missing_staging [OF a b, of inside_env] a b c d
  show ?thesis by simp
qed

subsection \<open>C6: the signal to the shell fails\<close>

text \<open>
  C6 says a failing signal does not fail \<^verbatim>\<open>finish\<close>. In the code \<^verbatim>\<open>os.kill\<close> stands inside
  the \<^verbatim>\<open>try\<close> block, after the message that the changes were applied: once the mirror to
  the output directory has succeeded, a recorded shell process that no longer runs makes
  \<^verbatim>\<open>finish\<close> end in the handler of the block, with an error and exit status 1.
\<close>

theorem finish_fails_when_signal_fails:
  assumes "state_file w = Some s"
    and "cwd e = temp_repo_path s"
    and "path_exists (files w) (temp_repo_path s)"
    and "fst (try_steps (publish_steps e s) w) = Inr ()"
    and "\<not> prefix (output_dir s) (temp_repo_path s)"
    and "shell_pid s = Some pid" and "0 < pid" and "pid \<notin> set (processes w)"
  shows "fst (finish_command e w) = Inl IOError \<and> exit_code (fst (finish_command e w)) = 1"
proof -
  obtain w1 where pub: "try_steps (publish_steps e s) w = (Inr (), w1)"
    using assms(4) by (cases "try_steps (publish_steps e s) w") auto
  from finish_after_publish(3) [OF assms(1-3) pub assms(5)] assms(6-8)
  show ?thesis by (simp add: exit_code_def)
qed

theorem finish_fails_when_signal_fails_witness:
  "state_file shell_gone_world = Some demo_session \<and>
   processes shell_gone_world = [] \<and>
   fst (try_steps (publish_steps inside_env demo_session) shell_gone_world) = Inr () \<and>
   fst (finish_command inside_env shell_gone_world) = Inl IOError \<and>
   exit_code (fst (finish_command inside_env shell_gone_world)) = 1 \<and>
   file_at (files (snd (finish_command inside_env shell_gone_world))) [''src'', ''a.txt''] =
     Some ''1'' \<and>
   state_file (snd (finish_command inside_env shell_gone_world)) = None"
proof -
  have a: "state_file shell_gone_world = Some demo_session"
    by (simp add: shell_gone_world_def demo_defs)
  have b: "cwd inside_env = temp_repo_path demo_session" by (simp add: demo_defs)
  have c: "path_exists (files shell_gone_world) (temp_repo_path demo_session)" by code_simp
  have d: "fst (try_steps (publish_steps inside_env demo_session) shell_gone_world) = Inr ()"
    by code_simp
  have f: "\<not> prefix (output_dir demo_session) (temp_repo_path demo_session)"
    by (simp add: demo_defs)
  have g: "shell_pid demo_session = Some 4711" by (simp add: demo_defs)
  have h: "4711 \<notin> set (processes shell_gone_world)" by (simp add: shell_gone_world_def)
  have i: "processes shell_gone_world = []" by (simp add: shell_gone_world_def)
  have j: "file_at (files (snd (finish_command inside_env shell_gone_world))) [''src'', ''a.txt''] =
     Some ''1''" by code_simp
  have k: "state_file (snd (finish_command inside_env shell_gone_world)) = None" by code_simp
  from finish_fails_when_signal_fails [OF a b c d f g _ h] a d i j k
  show ?thesis by (simp add: exit_code_def)
qed

subsection \<open>C8: status changes nothing\<close>

text \<open>
  C8. Invoking \<^verbatim>\<open>status\<close> any number of times, each time in whatever environment,
  leaves the world exactly as it was: the session record, and the staging repository with
  its files, its index and its commits. This holds for every world, so for every active
  session.
\<close>

theorem status_changes_nothing:
  "fold (\<lambda>e v. snd (status_command e v)) es w = w"
  by (induction es) (simp_all add: status_command_def split: sum.split)

theorem status_changes_nothing_witness:
  "state_file active_world \<noteq> None \<and>
   fold (\<lambda>e v. snd (status_command e v)) [demo_env, inside_env, no_git_env] active_world =
     active_world"
  using status_changes_nothing [of "[demo_env, inside_env, no_git_env]" active_world]
  by (simp add: active_world_def)

subsection \<open>C9: a failing live status query\<close>

text \<open>
  C9 as stated does not hold. The exit status of the query is never looked at. Where git
  runs and fails, as it does when the staging directory is no longer a repository,
  \<^verbatim>\<open>status\<close> reports that there are no changes.
\<close>

theorem status_failed_query_counterexample:
  "state_file no_repo_world = Some demo_session \<and>
   path_exists (files no_repo_world) (temp_repo_path demo_session) \<and>
   git_status_short demo_env (temp_repo_path demo_session) no_repo_world = Some (128, []) \<and>
   fst (status_command demo_env no_repo_world) =
     Inr (session_lines demo_session @
          [''Git status in temp repo:'', [], ''  (no changes)'', []])"
  by code_simp

text \<open>
  C9, amended. For every active session, \<^verbatim>\<open>status\<close> returns normally (exit status 0) and
  changes nothing, whatever the live query against the staging repository does. When the
  query cannot be run (\<^verbatim>\<open>subprocess.run\<close> raises), the failure is swallowed and no live
  status is printed: below the heading of the section the output has no entry, neither a
  summary of changes nor the line that says there are none.
\<close>

theorem status_swallows_query_failure:
  assumes "state_file w = Some s"
  shows "exit_code (fst (status_command e w)) = 0 \<and>
         snd (status_command e w) = w \<and>
         (path_exists (files w) (temp_repo_path s) \<and>
          git_status_short e (temp_repo_path s) w = None \<longrightarrow>
            fst (status_command e w) =
              Inr (session_lines s @ [''Git status in temp repo:'', [], []]))"
  using assms
  by (simp add: status_command_def load_session_state_def exit_code_def live_status_lines_def)

theorem status_swallows_query_failure_witness:
  "state_file active_world = Some demo_session \<and>
   path_exists (files active_world) (temp_repo_path demo_session) \<and>
   git_status_short no_git_env (temp_repo_path demo_session) active_world = None \<and>
   exit_code (fst (status_command no_git_env active_world)) = 0 \<and>
   snd (status_command no_git_env active_world) = active_world \<and>
   fst (status_command no_git_env active_world) =
     Inr (session_lines demo_session @ [''Git status in temp repo:'', [], []])"
proof -
  have a: "state_file active_world = Some demo_session" by (simp add: demo_defs)
  have b: "path_exists (files active_world) (temp_repo_path demo_session)" by code_simp
  have c: "git_status_short no_git_env (temp_repo_path demo_session) active_world = None"
    by code_simp
  show ?thesis
    using a b c status_swallows_query_failure [OF a, of no_git_env]
    by (simp add: exit_code_def)
qed

subsection \<open>C10: the session is over before the shell is signalled\<close>

text \<open>
  C10. In \<^verbatim>\<open>finish\<close> the staging directory is removed and the session record cleared
  before the signal is sent. So once the mirror to the output directory has succeeded,
  \<^verbatim>\<open>finish\<close> ends with no session record and nothing at or below the staging path,
  whether the signal succeeds (\<^verbatim>\<open>finish\<close> returns normally) or fails (it returns an
  error), and a following \<^verbatim>\<open>finish\<close> or \<^verbatim>\<open>status\<close> fails with
  \<open>NoActiveSessionError\<close> and changes nothing. The staging directory is assumed not to lie
  inside the output directory, where the mirror itself would delete it.
\<close>

theorem finish_ends_session:
  assumes "state_file w = Some s"
    and "cwd e = temp_repo_path s"
    and "path_exists (files w) (temp_repo_path s)"
    and "fst (try_steps (publish_steps e s) w) = Inr ()"
    and "\<not> prefix (output_dir s) (temp_repo_path s)"
  shows "state_file (snd (finish_command e w)) = None \<and>
         (\<forall>q. lookup (files (snd (finish_command e w))) (temp_repo_path s @ q) = None) \<and>
         (fst (finish_command e w) = Inr () \<or> fst (finish_command e w) = Inl IOError) \<and>
         finish_command e' (snd (finish_command e w)) =
           (Inl NoActiveSessionError, snd (finish_command e w)) \<and>
         status_command e' (snd (finish_command e w)) =
           (Inl NoActiveSessionError, snd (finish_command e w))"
proof -
  obtain w1 where pub: "try_steps (publish_steps e s) w = (Inr (), w1)"
    using assms(4) by (cases "try_steps (publish_steps e s) w") auto
  note fin = finish_after_publish [OF assms(1-3) pub assms(5)]
  have none: "state_file (snd (finish_command e w)) = None" by (rule fin(1))
  have gone: "lookup (files (snd (finish_command e w))) (temp_repo_path s @ q) = None" for q
    by (simp add: fin(2) lookup_rewrite_tree_below)
  have res: "fst (finish_command e w) = Inr () \<or> fst (finish_command e w) = Inl IOError"
    by (simp add: fin(3))
  from none have
    "finish_command e' (snd (finish_command e w)) =
       (Inl NoActiveSessionError, snd (finish_command e w))"
    "status_command e' (snd (finish_command e w)) =
       (Inl NoActiveSessionError, snd (finish_command e w))"
    by (simp_all add: finish_command_def status_command_def load_session_state_def)
  with none gone res show ?thesis by blast
qed

theorem finish_ends_session_witness:
  "state_file active_world = Some demo_session \<and>
   cwd inside_env = temp_repo_path demo_session \<and>
   path_exists (files active_world) (temp_repo_path demo_session) \<and>
   fst (try_steps (publish_steps inside_env demo_session) active_world) = Inr () \<and>
   prefix (output_dir demo_session) (temp_repo_path demo_session) = False \<and>
   state_file (snd (finish_command inside_env active_world)) = None \<and>
   lookup (files (snd (finish_command inside_env active_world)))
     (temp_repo_path demo_session @ [''a.txt'']) = None \<and>
   finish_command inside_env (snd (finish_command inside_env active_world)) =
     (Inl NoActiveSessionError, snd (finish_command inside_env active_world)) \<and>
   status_command demo_env (snd (finish_command inside_env active_world)) =
     (Inl NoActiveSessionError, snd (finish_command inside_env active_world))"
proof -
  have a: "state_file active_world = Some demo_session" by (simp add: demo_defs)
  have b: "cwd inside_env = temp_repo_path demo_session" by (simp add: demo_defs)
  have c: "path_exists (files active_world) (temp_repo_path demo_session)" by code_simp
  have d: "fst (try_steps (publish_steps inside_env demo_session) active_world) = Inr ()"
    by code_simp
  have f: "\<not> prefix (output_dir demo_session) (temp_repo_path demo_session)"
    by (simp add: demo_defs)
  from finish_ends_session [OF a b c d f, of inside_env]
    finish_ends_session [OF a b c d f, of demo_env] a b c d f
  show ?thesis by blast
qed

end
